theory Spec2Isabelle
  imports Complex_Main
begin

section \<open>Data model\<close>

text \<open>
  The exceptions that can leave the functions of \<^verbatim>\<open>s29011_2025-2.py\<close>.
  \<open>RuntimeError\<close> is raised by \<^verbatim>\<open>_fetch_batch\<close> itself (line 43), \<open>KeyError\<close> by a
  subscript \<^verbatim>\<open>res["..."]\<close> on a missing key, \<open>ValueError\<close> by \<^verbatim>\<open>int(...)\<close> on a
  string that is no integer, \<open>EntrezError\<close> stands for any exception raised inside the
  external \<^verbatim>\<open>Bio.Entrez\<close> / \<^verbatim>\<open>Bio.SeqIO\<close> calls, \<open>OSError\<close> for one raised by \<^verbatim>\<open>open\<close> or
  by a write to the file, and \<open>PlotError\<close> for one raised inside the \<^verbatim>\<open>matplotlib\<close> calls;
  none of them is caught anywhere in the file.
\<close>

datatype error =
    RuntimeError string
  | KeyError string
  | ValueError string
  | EntrezError string
  | OSError string
  | PlotError string

text \<open>
  A \<^verbatim>\<open>SeqRecord\<close> as far as the program reads it: \<^verbatim>\<open>r.id\<close>, \<^verbatim>\<open>r.seq\<close> (only its
  length is used) and \<^verbatim>\<open>r.description\<close>.
\<close>

record seq_record =
  id_acc :: string
  seq :: string
  description :: string

text \<open>The attributes of an \<^verbatim>\<open>NCBIRetriever\<close> object (lines 22--24).\<close>

record retriever =
  webenv :: "string option"
  query_key :: "string option"
  count :: int

text \<open>
  What a run does to the outside world, in order: \<open>BatchCall start size\<close> is a call
  \<^verbatim>\<open>self._fetch_batch(start, size)\<close> made by \<^verbatim>\<open>fetch_all\<close>,
  \<open>Efetch retstart retmax webenv query_key\<close> is the remote call \<^verbatim>\<open>Entrez.efetch\<close>, and
  \<open>Sleep delay\<close> is \<^verbatim>\<open>time.sleep(delay)\<close>.
\<close>

datatype event =
    BatchCall int int
  | Efetch int int string string
  | Sleep real

text \<open>
  The remote service together with the parser: for the arguments of one
  \<^verbatim>\<open>Entrez.efetch\<close> call, the records that \<^verbatim>\<open>SeqIO.parse\<close> streams out of the response
  and the exception, if any, that ends the stream (an \<^verbatim>\<open>efetch\<close> that raises at once
  streams no record).
\<close>

type_synonym remote = "int \<Rightarrow> int \<Rightarrow> string \<Rightarrow> string \<Rightarrow> seq_record list \<times> error option"

text \<open>The outcome of a generator consumed to its end: events, records yielded, exception.\<close>

type_synonym run = "event list \<times> seq_record list \<times> error option"

section \<open>The retriever\<close>

definition init :: "string \<Rightarrow> string \<Rightarrow> retriever" where
  "init email api_key = \<lparr>webenv = None, query_key = None, count = 0\<rparr>"

text \<open>
  \<^verbatim>\<open>_fetch_batch\<close> (lines 41--54). The guard of line 42 comes first; only past it is the
  remote call made and its records forwarded.
\<close>

definition fetch_batch :: "retriever \<Rightarrow> remote \<Rightarrow> int \<Rightarrow> int \<Rightarrow> run" where
  "fetch_batch r efetch start size_b =
     (case webenv r of
        None \<Rightarrow> ([], [], Some (RuntimeError ''error''))
      | Some w \<Rightarrow>
          (case query_key r of
             None \<Rightarrow> ([], [], Some (RuntimeError ''error''))
           | Some k \<Rightarrow>
               (let (recs, err) = efetch start size_b w k
                in ([Efetch start size_b w k], recs, err))))"

text \<open>
  The \<^verbatim>\<open>while\<close> loop of \<^verbatim>\<open>fetch_all\<close> (lines 59--65), with the generator consumed to
  its end as \<^verbatim>\<open>list(retriever.fetch_all(...))\<close> does in \<^verbatim>\<open>main\<close>. An exception in a
  batch ends the run there, after the records already yielded; otherwise the loop goes
  on to lines 63--65, \<^verbatim>\<open>time.sleep(delay)\<close> included, and tests \<^verbatim>\<open>remaining > 0\<close> again.
\<close>

function fetch_loop :: "retriever \<Rightarrow> remote \<Rightarrow> real \<Rightarrow> int \<Rightarrow> int \<Rightarrow> run" where
  "fetch_loop r efetch delay remaining start =
     (if remaining > 0 then
        (let batch = min remaining 500;
             (ev, recs, err) = fetch_batch r efetch start batch
         in case err of
              Some e \<Rightarrow> (BatchCall start batch # ev, recs, Some e)
            | None \<Rightarrow>
                (let (ev', recs', err') =
                       fetch_loop r efetch delay (remaining - batch) (start + batch)
                 in (BatchCall start batch # ev @ Sleep delay # ev', recs @ recs', err')))
      else ([], [], None))"
  by pat_completeness auto
termination
  by (relation "measure (\<lambda>(r, efetch, delay, remaining, start). nat remaining)") auto

declare fetch_loop.simps [simp del]

definition fetch_all :: "retriever \<Rightarrow> remote \<Rightarrow> int option \<Rightarrow> real \<Rightarrow> run" where
  "fetch_all r efetch limit delay =
     (let remaining = (case limit of None \<Rightarrow> count r | Some l \<Rightarrow> min l (count r))
      in fetch_loop r efetch delay remaining 0)"

section \<open>Reading a run\<close>

definition events :: "run \<Rightarrow> event list" where
  "events run = fst run"

definition yielded :: "run \<Rightarrow> seq_record list" where
  "yielded run = fst (snd run)"

definition failure :: "run \<Rightarrow> error option" where
  "failure run = snd (snd run)"

text \<open>The windows \<open>(start, size)\<close> of the batch calls, the delays slept, the remote calls.\<close>

fun batch_calls :: "event list \<Rightarrow> (int \<times> int) list" where
  "batch_calls [] = []"
| "batch_calls (BatchCall s n # es) = (s, n) # batch_calls es"
| "batch_calls (e # es) = batch_calls es"

fun sleeps :: "event list \<Rightarrow> real list" where
  "sleeps [] = []"
| "sleeps (Sleep d # es) = d # sleeps es"
| "sleeps (e # es) = sleeps es"

fun remote_calls :: "event list \<Rightarrow> event list" where
  "remote_calls [] = []"
| "remote_calls (Efetch s n w k # es) = Efetch s n w k # remote_calls es"
| "remote_calls (e # es) = remote_calls es"

text \<open>
  The count that \<^verbatim>\<open>fetch_all\<close> sets out to retrieve (line 57): the stored count, or the
  smaller of the limit and the stored count when a limit is given.
\<close>

definition effective_count :: "int option \<Rightarrow> int \<Rightarrow> int" where
  "effective_count limit total_count =
     (case limit of None \<Rightarrow> total_count | Some l \<Rightarrow> min l total_count)"

text \<open>
  A list of windows is contiguous from \<open>s\<close> when the first starts at \<open>s\<close>, each has a size
  between 1 and 500, and each next one starts where the previous one ends.
\<close>

fun contiguous_from :: "int \<Rightarrow> (int \<times> int) list \<Rightarrow> bool" where
  "contiguous_from s [] = True"
| "contiguous_from s ((a, n) # ws) =
     (a = s \<and> 1 \<le> n \<and> n \<le> 500 \<and> contiguous_from (s + n) ws)"

text \<open>The windows of \<open>n\<close> records from offset \<open>start\<close> on, in closed form.\<close>

definition windows :: "int \<Rightarrow> int \<Rightarrow> (int \<times> int) list" where
  "windows start n =
     map (\<lambda>i. (start + 500 * int i, min 500 (n - 500 * int i))) [0..<nat ((n + 499) div 500)]"

section \<open>Search\<close>

text \<open>Python's \<^verbatim>\<open>str\<close> of an integer, as the f-strings and the CSV writer format it.\<close>

function str_nat :: "nat \<Rightarrow> string" where
  "str_nat n =
     (if n < 10 then [''0123456789'' ! n]
      else str_nat (n div 10) @ [''0123456789'' ! (n mod 10)])"
  by pat_completeness auto
termination
  by (relation "measure (\<lambda>n. n)") auto

declare str_nat.simps [simp del]

definition str_int :: "int \<Rightarrow> string" where
  "str_int i = (if i < 0 then CHR ''-'' # str_nat (nat (- i)) else str_nat (nat i))"

text \<open>The query string that \<^verbatim>\<open>search\<close> builds (lines 27--31).\<close>

definition search_query :: "string \<Rightarrow> int option \<Rightarrow> int option \<Rightarrow> string" where
  "search_query taxid min_len max_len =
     (let query = ''txid'' @ taxid @ ''[Organism]''
      in if min_len \<noteq> None \<or> max_len \<noteq> None then
           (let min' = (case min_len of Some m \<Rightarrow> m | None \<Rightarrow> 1);
                max' = (case max_len of Some m \<Rightarrow> m | None \<Rightarrow> 1000000000)
            in query @ '' AND '' @ str_int min' @ '':'' @ str_int max' @ ''[SLEN]'')
         else query)"

text \<open>
  The remote search: \<^verbatim>\<open>Entrez.esearch(db="nucleotide", term=query, usehistory="y",
  retmax=0)\<close> followed by \<^verbatim>\<open>Entrez.read\<close>, as a function of the query; it raises or
  returns a dictionary. \<open>to_int\<close> below is Python's built-in \<^verbatim>\<open>int\<close> on the text of the
  count, \<open>None\<close> where it raises \<^verbatim>\<open>ValueError\<close>.
\<close>

type_synonym esearch = "string \<Rightarrow> error + (string \<rightharpoonup> string)"

text \<open>
  \<^verbatim>\<open>search\<close> (lines 26--39). The three subscripts are read in the order of lines 36--38,
  each attribute assigned before the next subscript is evaluated, so a missing key leaves
  the attributes assigned before it in place.
\<close>

definition search ::
  "retriever \<Rightarrow> esearch \<Rightarrow> (string \<Rightarrow> int option) \<Rightarrow> string \<Rightarrow> int option \<Rightarrow> int option
     \<Rightarrow> retriever \<times> (error + int)" where
  "search r esearch to_int taxid min_len max_len =
     (case esearch (search_query taxid min_len max_len) of
        Inl e \<Rightarrow> (r, Inl e)
      | Inr res \<Rightarrow>
          (case res ''WebEnv'' of
             None \<Rightarrow> (r, Inl (KeyError ''WebEnv''))
           | Some w \<Rightarrow>
               (let r1 = r\<lparr>webenv := Some w\<rparr>
                in case res ''QueryKey'' of
                     None \<Rightarrow> (r1, Inl (KeyError ''QueryKey''))
                   | Some k \<Rightarrow>
                       (let r2 = r1\<lparr>query_key := Some k\<rparr>
                        in case res ''Count'' of
                             None \<Rightarrow> (r2, Inl (KeyError ''Count''))
                           | Some c \<Rightarrow>
                               (case to_int c of
                                  None \<Rightarrow> (r2, Inl (ValueError c))
                                | Some n \<Rightarrow> (r2\<lparr>count := n\<rparr>, Inr n))))))"

section \<open>Report and plot\<close>

text \<open>
  \<^verbatim>\<open>write_csv\<close> (lines 67--72). The file is the list of the rows handed to
  \<^verbatim>\<open>csv.writer.writerow\<close>, each a list of fields; \<^verbatim>\<open>open(path, "w")\<close> starts from the
  empty file. How the \<^verbatim>\<open>csv\<close> module quotes and terminates a row is the library's.
\<close>

definition writerow :: "string list list \<Rightarrow> string list \<Rightarrow> string list list" where
  "writerow fh row = fh @ [row]"

definition write_csv :: "seq_record list \<Rightarrow> string list list" where
  "write_csv records =
     foldl (\<lambda>fh r. writerow fh [id_acc r, str_nat (length (seq r)), description r])
       (writerow [] [''Accession'', ''Length'', ''Description'']) records"

text \<open>
  Python's built-in \<^verbatim>\<open>sorted(xs, key=..., reverse=...)\<close>. The sort is stable; with
  \<^verbatim>\<open>reverse=True\<close> CPython reverses the list, sorts it stably in ascending order of the
  key and reverses the result.
\<close>

definition sorted_py :: "('a \<Rightarrow> 'k::linorder) \<Rightarrow> bool \<Rightarrow> 'a list \<Rightarrow> 'a list" where
  "sorted_py key reverse xs =
     (if reverse then rev (sort_key key (rev xs)) else sort_key key xs)"

text \<open>
  \<^verbatim>\<open>plot_lengths\<close> (lines 75--88) up to the rendering: the ordering it derives and the two
  lists it hands to \<^verbatim>\<open>plt.plot\<close>.
\<close>

definition sorted_recs :: "seq_record list \<Rightarrow> seq_record list" where
  "sorted_recs records = sorted_py (\<lambda>r. length (seq r)) True records"

definition plot_lengths :: "seq_record list \<Rightarrow> string list \<times> nat list" where
  "plot_lengths records =
     (let accs = map id_acc (sorted_recs records);
          lengths = map (\<lambda>r. length (seq r)) (sorted_recs records)
      in (accs, lengths))"





section \<open>The program\<close>





section \<open>Sample inputs\<close>

text \<open>A retriever after a search that found 1200 records, and a remote that serves every
  request in full.\<close>

definition session_1200 :: retriever where
  "session_1200 = \<lparr>webenv = Some ''MCID_1'', query_key = Some ''1'', count = 1200\<rparr>"

definition well_behaved :: remote where
  "well_behaved retstart retmax w k =
     (replicate (nat retmax) \<lparr>id_acc = ''X1'', seq = ''ACGT'', description = ''x''\<rparr>, None)"

text \<open>A remote that serves the requests below an offset and fails from that offset on.\<close>

definition fails_from :: "int \<Rightarrow> remote" where
  "fails_from bound retstart retmax w k =
     (if retstart < bound then well_behaved retstart retmax w k
      else ([], Some (EntrezError ''HTTP Error 429: Too Many Requests'')))"

text \<open>
  Python's \<^verbatim>\<open>int\<close> on the count texts that the samples use; three remote searches (one
  that fails, one whose answer lacks the count, one that answers with a given count);
  three records of lengths 2, 3 and 2.
\<close>

definition sample_int :: "string \<Rightarrow> int option" where
  "sample_int s =
     (if s = ''0'' then Some 0 else if s = ''2'' then Some 2
      else if s = ''1200'' then Some 1200 else if s = ''30000'' then Some 30000 else None)"

definition esearch_down :: esearch where
  "esearch_down query = Inl (EntrezError ''HTTP Error 502: Bad Gateway'')"

definition esearch_no_count :: esearch where
  "esearch_no_count query = Inr [''WebEnv'' \<mapsto> ''MCID_1'', ''QueryKey'' \<mapsto> ''1'']"

definition esearch_count :: "string \<Rightarrow> esearch" where
  "esearch_count c query =
     Inr [''WebEnv'' \<mapsto> ''MCID_1'', ''QueryKey'' \<mapsto> ''1'', ''Count'' \<mapsto> c]"

definition sample_records :: "seq_record list" where
  "sample_records =
     [\<lparr>id_acc = ''A1'', seq = ''AC'', description = ''first''\<rparr>,
      \<lparr>id_acc = ''B2'', seq = ''ACG'', description = ''second''\<rparr>,
      \<lparr>id_acc = ''C3'', seq = ''GT'', description = ''third''\<rparr>]"





section \<open>Facts about the loop\<close>

lemma run_simps [simp]:
  "events (ev, recs, err) = ev" "yielded (ev, recs, err) = recs" "failure (ev, recs, err) = err"
  by (simp_all add: events_def yielded_def failure_def)

lemma batch_calls_append [simp]: "batch_calls (es @ es') = batch_calls es @ batch_calls es'"
  by (induction es rule: batch_calls.induct) simp_all

lemma sleeps_append [simp]: "sleeps (es @ es') = sleeps es @ sleeps es'"
  by (induction es rule: sleeps.induct) simp_all

lemma remote_calls_append [simp]: "remote_calls (es @ es') = remote_calls es @ remote_calls es'"
  by (induction es rule: remote_calls.induct) simp_all

lemma fetch_loop_done: "remaining \<le> 0 \<Longrightarrow> fetch_loop r efetch delay remaining start = ([], [], None)"
  by (simp add: fetch_loop.simps)

lemma fetch_batch_cases:
  obtains (guard) "webenv r = None \<or> query_key r = None"
      "fetch_batch r efetch start n = ([], [], Some (RuntimeError ''error''))"
  | (remote) w k where "webenv r = Some w" "query_key r = Some k"
      "fetch_batch r efetch start n = ([Efetch start n w k], efetch start n w k)"
  by (cases "webenv r"; cases "query_key r")
     (auto simp: fetch_batch_def split: prod.splits)

lemma fetch_batch_events:
  assumes "fetch_batch r efetch start n = (ev, recs, err)"
  shows "batch_calls ev = []" and "sleeps ev = []"
  using assms by (cases r efetch start n rule: fetch_batch_cases; auto)+

lemma fetch_loop_fail:
  assumes "0 < remaining" "fetch_batch r efetch start (min remaining 500) = (ev, recs, Some e)"
  shows "fetch_loop r efetch delay remaining start = (BatchCall start (min remaining 500) # ev, recs, Some e)"
  using assms by (subst fetch_loop.simps) simp

lemma fetch_loop_ok:
  assumes "0 < remaining" "fetch_batch r efetch start (min remaining 500) = (ev, recs, None)"
    "fetch_loop r efetch delay (remaining - min remaining 500) (start + min remaining 500) = (ev', recs', err')"
  shows "fetch_loop r efetch delay remaining start =
     (BatchCall start (min remaining 500) # ev @ Sleep delay # ev', recs @ recs', err')"
  using assms by (subst fetch_loop.simps) (simp add: Let_def)

lemma fetch_loop_cases:
  fixes r :: retriever and efetch :: remote
  obtains (stop) "remaining \<le> 0" "fetch_loop r efetch delay remaining start = ([], [], None)"
  | (fail) ev recs e where "0 < remaining"
      "fetch_batch r efetch start (min remaining 500) = (ev, recs, Some e)"
      "fetch_loop r efetch delay remaining start = (BatchCall start (min remaining 500) # ev, recs, Some e)"
  | (ok) ev recs ev' recs' err' where "0 < remaining"
      "fetch_batch r efetch start (min remaining 500) = (ev, recs, None)"
      "fetch_loop r efetch delay (remaining - min remaining 500) (start + min remaining 500) = (ev', recs', err')"
      "fetch_loop r efetch delay remaining start =
         (BatchCall start (min remaining 500) # ev @ Sleep delay # ev', recs @ recs', err')"
proof (cases "0 < remaining")
  case False
  then show ?thesis using stop by (simp add: fetch_loop_done)
next
  case True
  obtain ev recs err where fb: "fetch_batch r efetch start (min remaining 500) = (ev, recs, err)"
    by (metis prod_cases3)
  show ?thesis
  proof (cases err)
    case (Some e)
    then show ?thesis using True fb fail fetch_loop_fail by blast
  next
    case None
    obtain ev' recs' err' where
      "fetch_loop r efetch delay (remaining - min remaining 500) (start + min remaining 500) = (ev', recs', err')"
      by (metis prod_cases3)
    then show ?thesis using True fb None ok fetch_loop_ok by blast
  qed
qed

lemma loop_induct [case_names stop step]:
  fixes remaining start :: int
  assumes "\<And>remaining start. remaining \<le> 0 \<Longrightarrow> P remaining start"
    and "\<And>remaining start. 0 < remaining \<Longrightarrow>
           P (remaining - min remaining 500) (start + min remaining 500) \<Longrightarrow> P remaining start"
  shows "P remaining start"
proof (induction "nat remaining" arbitrary: remaining start rule: less_induct)
  case less
  show ?case
  proof (cases "0 < remaining")
    case False
    then show ?thesis using assms(1) by simp
  next
    case True
    then have "nat (remaining - min remaining 500) < nat remaining" by auto
    then show ?thesis using less True assms(2) by blast
  qed
qed

lemma fetch_loop_contiguous:
  "contiguous_from start (batch_calls (events (fetch_loop r efetch delay remaining start)))"
proof (induction remaining start rule: loop_induct)
  case (stop remaining start)
  then show ?case by (simp add: fetch_loop_done)
next
  case (step remaining start)
  show ?case
  proof (cases r efetch delay remaining start rule: fetch_loop_cases)
    case stop
    then show ?thesis by simp
  next
    case (fail ev recs e)
    then show ?thesis by (simp add: fetch_batch_events)
  next
    case (ok ev recs ev' recs' err')
    then show ?thesis using step by (simp add: fetch_batch_events)
  qed
qed

lemma windows_stop: "n \<le> 0 \<Longrightarrow> windows start n = []"
  by (simp add: windows_def)

lemma windows_step:
  assumes "0 < n"
  shows "windows start n = (start, min n 500) # windows (start + min n 500) (n - min n 500)"
proof (cases "n \<le> 500")
  case True
  with assms have "nat ((n + 499) div 500) = 1" by simp
  then show ?thesis using True assms by (simp add: windows_def min_def)
next
  case False
  then have "nat ((n + 499) div 500) = Suc (nat ((n - 500 + 499) div 500))" by simp
  then show ?thesis using False
    by (simp add: windows_def upt_conv_Cons map_Suc_upt [symmetric] diff_diff_eq del: upt_Suc)
qed

lemma fetch_loop_windows:
  "failure (fetch_loop r efetch delay remaining start) = None \<Longrightarrow>
   batch_calls (events (fetch_loop r efetch delay remaining start)) = windows start remaining"
proof (induction remaining start rule: loop_induct)
  case (stop remaining start)
  then show ?case by (simp add: fetch_loop_done windows_stop)
next
  case (step remaining start)
  show ?case
  proof (cases r efetch delay remaining start rule: fetch_loop_cases)
    case stop
    then show ?thesis using step by simp
  next
    case (fail ev recs e)
    then show ?thesis using step by simp
  next
    case (ok ev recs ev' recs' err')
    then show ?thesis using step by (simp add: fetch_batch_events windows_step)
  qed
qed

lemma fetch_loop_sleeps:
  "sleeps (events (fetch_loop r efetch delay remaining start)) =
     replicate (length (batch_calls (events (fetch_loop r efetch delay remaining start)))
                 - (if failure (fetch_loop r efetch delay remaining start) = None then 0 else 1)) delay
   \<and> (failure (fetch_loop r efetch delay remaining start) \<noteq> None \<longrightarrow>
        batch_calls (events (fetch_loop r efetch delay remaining start)) \<noteq> [])"
proof (induction remaining start rule: loop_induct)
  case (stop remaining start)
  then show ?case by (simp add: fetch_loop_done)
next
  case (step remaining start)
  show ?case
  proof (cases r efetch delay remaining start rule: fetch_loop_cases)
    case stop
    then show ?thesis by simp
  next
    case (fail ev recs e)
    then show ?thesis by (simp add: fetch_batch_events)
  next
    case (ok ev recs ev' recs' err')
    then show ?thesis using step
      by (cases "batch_calls ev'") (auto simp: fetch_batch_events)
  qed
qed

lemma fetch_loop_last:
  "failure (fetch_loop r efetch delay remaining start) = None \<Longrightarrow> 0 < remaining \<Longrightarrow>
   last (events (fetch_loop r efetch delay remaining start)) = Sleep delay"
proof (induction remaining start rule: loop_induct)
  case (stop remaining start)
  then show ?case by simp
next
  case (step remaining start)
  show ?case
  proof (cases r efetch delay remaining start rule: fetch_loop_cases)
    case stop
    then show ?thesis using step by simp
  next
    case (fail ev recs e)
    then show ?thesis using step by simp
  next
    case (ok ev recs ev' recs' err')
    show ?thesis
    proof (cases "0 < remaining - min remaining 500")
      case True
      then show ?thesis using ok step by simp
    next
      case False
      then have "ev' = []" using ok(3) by (simp add: fetch_loop_done)
      then show ?thesis using ok by simp
    qed
  qed
qed

lemma fetch_loop_yielded:
  assumes "failure (fetch_loop r efetch delay remaining start) = None"
    and "\<forall>(s, n) \<in> set (batch_calls (events (fetch_loop r efetch delay remaining start))).
           \<forall>w k. webenv r = Some w \<longrightarrow> query_key r = Some k \<longrightarrow>
             int (length (fst (efetch s n w k))) = n"
  shows "int (length (yielded (fetch_loop r efetch delay remaining start))) = max 0 remaining"
  using assms
proof (induction remaining start rule: loop_induct)
  case (stop remaining start)
  then show ?case by (simp add: fetch_loop_done)
next
  case (step remaining start)
  show ?case
  proof (cases r efetch delay remaining start rule: fetch_loop_cases)
    case stop
    then show ?thesis using step by simp
  next
    case (fail ev recs e)
    then show ?thesis using step by simp
  next
    case (ok ev recs ev' recs' err')
    have calls: "batch_calls (events (fetch_loop r efetch delay remaining start)) =
                 (start, min remaining 500) # batch_calls ev'"
      using ok by (simp add: fetch_batch_events)
    have "int (length recs) = min remaining 500"
    proof (cases r efetch start "min remaining 500" rule: fetch_batch_cases)
      case guard
      then show ?thesis using ok by simp
    next
      case (remote w k)
      then have "recs = fst (efetch start (min remaining 500) w k)" using ok(2) by (metis fst_conv snd_conv)
      then show ?thesis using step.prems(2) remote calls by simp
    qed
    moreover have "int (length recs') = max 0 (remaining - min remaining 500)"
      using step ok calls by simp
    ultimately show ?thesis using ok by simp
  qed
qed


lemma ceiling_500: "\<lceil>real_of_int n / 500\<rceil> = (n + 499) div 500"
proof -
  have "\<lceil>real_of_int n / real_of_int 500\<rceil> = - (- n div 500)"
    by (rule ceiling_divide_eq_div)
  also have "\<dots> = (n + 499) div 500" by (simp add: div_pos_neg_trivial)
  finally show ?thesis by simp
qed

lemma length_windows: "0 \<le> n \<Longrightarrow> int (length (windows start n)) = (n + 499) div 500"
  by (simp add: windows_def)

lemma contiguous_from_nth:
  "contiguous_from s ws \<Longrightarrow>
     (ws \<noteq> [] \<longrightarrow> fst (ws ! 0) = s) \<and>
     (\<forall>i. Suc i < length ws \<longrightarrow> fst (ws ! Suc i) = fst (ws ! i) + snd (ws ! i)) \<and>
     (\<forall>(a, n) \<in> set ws. 1 \<le> n \<and> n \<le> 500)"
proof (induction ws arbitrary: s)
  case Nil
  then show ?case by simp
next
  case (Cons w ws)
  obtain a n where w: "w = (a, n)" by (cases w)
  with Cons.prems have step: "a = s" "1 \<le> n" "n \<le> 500" "contiguous_from (s + n) ws" by simp_all
  note ih = Cons.IH [OF step(4)]
  have "fst ((w # ws) ! Suc i) = fst ((w # ws) ! i) + snd ((w # ws) ! i)"
    if "Suc i < length (w # ws)" for i
  proof (cases i)
    case 0
    then show ?thesis using that ih w step by (cases ws) auto
  next
    case (Suc j)
    then show ?thesis using that ih by simp
  qed
  then show ?case using ih w step by auto
qed

lemma windows_1200: "windows 0 1200 = [(0, 500), (500, 500), (1000, 200)]"
  by (simp add: windows_step windows_stop)

lemma windows_300: "windows 0 300 = [(0, 300)]"
  by (simp add: windows_step windows_stop)

lemma windows_Nil_iff: "windows start n = [] \<longleftrightarrow> n \<le> 0"
  using windows_step [of n start] windows_stop [of n start] by (cases "0 < n") auto

lemma effective_count_nonneg:
  "0 \<le> total_count \<Longrightarrow> \<forall>l. limit = Some l \<longrightarrow> 0 \<le> l \<Longrightarrow> 0 \<le> effective_count limit total_count"
  by (cases limit) (simp_all add: effective_count_def)

lemma fetch_all_loop:
  "fetch_all r efetch limit delay = fetch_loop r efetch delay (effective_count limit (count r)) 0"
  by (cases limit) (simp_all add: fetch_all_def effective_count_def)

lemma run_1200_None:
  "fetch_all session_1200 well_behaved None d =
     ([BatchCall 0 500, Efetch 0 500 ''MCID_1'' ''1'', Sleep d,
       BatchCall 500 500, Efetch 500 500 ''MCID_1'' ''1'', Sleep d,
       BatchCall 1000 200, Efetch 1000 200 ''MCID_1'' ''1'', Sleep d],
      fst (well_behaved 0 500 ''MCID_1'' ''1'') @ fst (well_behaved 500 500 ''MCID_1'' ''1'')
        @ fst (well_behaved 1000 200 ''MCID_1'' ''1''), None)"
  by (simp add: fetch_all_def session_1200_def fetch_loop.simps [of _ _ _ 1200]
      fetch_loop.simps [of _ _ _ 700] fetch_loop.simps [of _ _ _ 200] fetch_loop.simps [of _ _ _ 0]
      fetch_batch_def well_behaved_def)

lemma run_1200_300:
  "fetch_all session_1200 well_behaved (Some 300) d =
     ([BatchCall 0 300, Efetch 0 300 ''MCID_1'' ''1'', Sleep d],
      fst (well_behaved 0 300 ''MCID_1'' ''1''), None)"
  by (simp add: fetch_all_def session_1200_def fetch_loop.simps [of _ _ _ 300]
      fetch_loop.simps [of _ _ _ 0] fetch_batch_def well_behaved_def)

lemma run_1200_negative:
  "fetch_all session_1200 well_behaved (Some (- 500)) d = ([], [], None)"
  by (simp add: fetch_all_def session_1200_def fetch_loop.simps [of _ _ _ "- 500"])

lemma run_1200_failing:
  "fetch_all session_1200 (fails_from 500) None d =
     ([BatchCall 0 500, Efetch 0 500 ''MCID_1'' ''1'', Sleep d,
       BatchCall 500 500, Efetch 500 500 ''MCID_1'' ''1''],
      fst (well_behaved 0 500 ''MCID_1'' ''1''),
      Some (EntrezError ''HTTP Error 429: Too Many Requests''))"
  by (simp add: fetch_all_def session_1200_def fetch_loop.simps [of _ _ _ 1200]
      fetch_loop.simps [of _ _ _ 700] fetch_batch_def fails_from_def well_behaved_def)

lemma count_session_1200: "count session_1200 = 1200"
  by (simp add: session_1200_def)

lemma well_behaved_length: "0 \<le> n \<Longrightarrow> int (length (fst (well_behaved s n w k))) = n"
  by (simp add: well_behaved_def)

lemma str_nat_digit: "n < 10 \<Longrightarrow> str_nat n = [''0123456789'' ! n]"
  by (simp add: str_nat.simps)

lemma str_int_1: "str_int 1 = ''1''"
  by (simp add: str_int_def str_nat.simps)

lemma str_int_max: "str_int 1000000000 = ''1000000000''"
  by (simp add: str_int_def str_nat.simps)

section \<open>Facts about the report, the plot and the samples\<close>

lemma sorted_recs_desc:
  "sorted_wrt (\<lambda>a b. b \<le> a) (map (\<lambda>r. length (seq r)) (sorted_recs records))"
proof -
  have "sorted (map (\<lambda>r. length (seq r)) (sort_key (\<lambda>r. length (seq r)) (rev records)))"
    by (rule sorted_sort_key)
  then have "sorted_wrt (\<lambda>a b. b \<le> a)
      (rev (map (\<lambda>r. length (seq r)) (sort_key (\<lambda>r. length (seq r)) (rev records))))"
    by (simp add: sorted_wrt_rev)
  then show ?thesis by (simp add: sorted_recs_def sorted_py_def rev_map)
qed

lemma sorted_recs_stable:
  "filter (\<lambda>r. length (seq r) = n) (sorted_recs records)
     = filter (\<lambda>r. length (seq r) = n) records"
proof -
  have "filter (\<lambda>r. length (seq r) = n) (sorted_recs records)
      = rev (filter (\<lambda>r. length (seq r) = n) (sort_key (\<lambda>r. length (seq r)) (rev records)))"
    by (simp add: sorted_recs_def sorted_py_def rev_filter)
  also have "\<dots> = rev (filter (\<lambda>r. length (seq r) = n) (rev records))"
    by (simp only: sort_key_stable)
  also have "\<dots> = filter (\<lambda>r. length (seq r) = n) records"
    by (simp add: rev_filter)
  finally show ?thesis .
qed

lemma sorted_recs_sample:
  "sorted_recs sample_records =
     [\<lparr>id_acc = ''B2'', seq = ''ACG'', description = ''second''\<rparr>,
      \<lparr>id_acc = ''A1'', seq = ''AC'', description = ''first''\<rparr>,
      \<lparr>id_acc = ''C3'', seq = ''GT'', description = ''third''\<rparr>]"
  by (simp add: sorted_recs_def sorted_py_def sample_records_def)

lemma foldl_writerow:
  "foldl (\<lambda>fh r. writerow fh (row r)) fh records = fh @ map row records"
  by (induction records arbitrary: fh) (simp_all add: writerow_def)












section \<open>Batches\<close>

text \<open>
  C1, as amended. For every stored count \<open>\<ge> 0\<close> and every limit that is absent or \<open>\<ge> 0\<close>, a
  run of \<^verbatim>\<open>fetch_all\<close> in which no batch call fails issues exactly
  \<open>\<lceil>effective_count / 500\<rceil>\<close> batch calls, issues none if and only if the effective count
  is zero, and yields as many records as the effective count when every batch call it
  makes yields exactly the number of records it asked for. A stored count of 1200 with no
  limit gives the three windows \<open>(0, 500)\<close>, \<open>(500, 500)\<close>, \<open>(1000, 200)\<close>.
\<close>

theorem fetch_all_batches:
  assumes "0 \<le> count r" and "\<forall>l. limit = Some l \<longrightarrow> 0 \<le> l"
    and "failure (fetch_all r efetch limit delay) = None"
  shows "int (length (batch_calls (events (fetch_all r efetch limit delay)))) =
           \<lceil>real_of_int (effective_count limit (count r)) / 500\<rceil>
     \<and> (batch_calls (events (fetch_all r efetch limit delay)) = [] \<longleftrightarrow>
          effective_count limit (count r) = 0)
     \<and> ((\<forall>(s, n) \<in> set (batch_calls (events (fetch_all r efetch limit delay))).
            \<forall>w k. webenv r = Some w \<longrightarrow> query_key r = Some k \<longrightarrow>
              int (length (fst (efetch s n w k))) = n) \<longrightarrow>
          int (length (yielded (fetch_all r efetch limit delay))) = effective_count limit (count r))
     \<and> (limit = None \<and> count r = 1200 \<longrightarrow>
          batch_calls (events (fetch_all r efetch limit delay)) = [(0, 500), (500, 500), (1000, 200)])"
proof -
  let ?n = "effective_count limit (count r)"
  have n: "0 \<le> ?n" using assms(1,2) by (rule effective_count_nonneg)
  have calls: "batch_calls (events (fetch_all r efetch limit delay)) = windows 0 ?n"
    using assms(3) fetch_loop_windows by (simp add: fetch_all_loop)
  have c1: "int (length (batch_calls (events (fetch_all r efetch limit delay)))) = \<lceil>real_of_int ?n / 500\<rceil>"
    using n by (simp add: calls length_windows ceiling_500)
  have c2: "batch_calls (events (fetch_all r efetch limit delay)) = [] \<longleftrightarrow> ?n = 0"
    using n by (auto simp: calls windows_Nil_iff)
  have c3: "int (length (yielded (fetch_all r efetch limit delay))) = ?n"
    if "\<forall>(s, n) \<in> set (batch_calls (events (fetch_all r efetch limit delay))).
            \<forall>w k. webenv r = Some w \<longrightarrow> query_key r = Some k \<longrightarrow>
              int (length (fst (efetch s n w k))) = n"
    using fetch_loop_yielded [of r efetch delay ?n 0] that assms(3) n
    by (simp add: fetch_all_loop)
  have c4: "batch_calls (events (fetch_all r efetch limit delay)) = [(0, 500), (500, 500), (1000, 200)]"
    if "limit = None \<and> count r = 1200"
    using that calls windows_1200 by (simp add: effective_count_def)
  show ?thesis using c1 c2 c3 c4 by blast
qed

theorem fetch_all_batches_witness:
  "0 \<le> count session_1200
   \<and> failure (fetch_all session_1200 well_behaved None (34 / 100)) = None
   \<and> effective_count None (count session_1200) = 1200
   \<and> \<lceil>real_of_int (effective_count None (count session_1200)) / 500\<rceil> = 3
   \<and> int (length (batch_calls (events (fetch_all session_1200 well_behaved None (34 / 100))))) = 3
   \<and> batch_calls (events (fetch_all session_1200 well_behaved None (34 / 100)))
        = [(0, 500), (500, 500), (1000, 200)]
   \<and> int (length (fst (well_behaved 0 500 ''MCID_1'' ''1''))) = 500
   \<and> int (length (fst (well_behaved 500 500 ''MCID_1'' ''1''))) = 500
   \<and> int (length (fst (well_behaved 1000 200 ''MCID_1'' ''1''))) = 200
   \<and> int (length (yielded (fetch_all session_1200 well_behaved None (34 / 100)))) = 1200"
proof -
  have h1: "0 \<le> count session_1200" by (simp add: session_1200_def)
  have h2: "\<forall>l. (None :: int option) = Some l \<longrightarrow> 0 \<le> l" by simp
  have h3: "failure (fetch_all session_1200 well_behaved None (34 / 100)) = None"
    by (simp add: run_1200_None)
  have e: "effective_count None (count session_1200) = 1200"
    by (simp add: effective_count_def session_1200_def)
  have wb: "\<forall>(s, n) \<in> set (batch_calls (events (fetch_all session_1200 well_behaved None (34 / 100)))).
         \<forall>w k. webenv session_1200 = Some w \<longrightarrow> query_key session_1200 = Some k \<longrightarrow>
           int (length (fst (well_behaved s n w k))) = n"
    by (simp add: run_1200_None well_behaved_length)
  have c: "\<lceil>real_of_int (1200::int) / 500\<rceil> = 3" by (simp add: ceiling_500)
  show ?thesis
    using fetch_all_batches [OF h1 h2 h3] h1 h3 e wb c
    by (simp add: run_1200_None well_behaved_length)
qed

theorem fetch_all_negative_limit_counterexample:
  "0 \<le> count session_1200
   \<and> failure (fetch_all session_1200 well_behaved (Some (- 500)) (34 / 100)) = None
   \<and> batch_calls (events (fetch_all session_1200 well_behaved (Some (- 500)) (34 / 100))) = []
   \<and> effective_count (Some (- 500)) (count session_1200) \<noteq> 0
   \<and> int (length (batch_calls (events (fetch_all session_1200 well_behaved (Some (- 500)) (34 / 100)))))
        \<noteq> \<lceil>real_of_int (effective_count (Some (- 500)) (count session_1200)) / 500\<rceil>
   \<and> int (length (yielded (fetch_all session_1200 well_behaved (Some (- 500)) (34 / 100))))
        \<noteq> effective_count (Some (- 500)) (count session_1200)"
proof -
  have "\<lceil>- 1 :: real\<rceil> = - 1" using ceiling_of_int [of "- 1"] by simp
  then show ?thesis
    by (simp add: run_1200_negative effective_count_def count_session_1200)
qed

section \<open>The delay between batches\<close>

text \<open>
  C2, as amended. A run of \<^verbatim>\<open>fetch_all\<close> that issues \<open>n\<close> batch calls and ends without a
  failure invokes the delay exactly \<open>n\<close> times, once after every batch, the final one
  included: the last thing such a run does is sleep. (A run that a failing batch ends
  invokes it \<open>n - 1\<close> times.) A stored count of 1200 with limit 300 issues one batch of
  size 300 at offset 0 and invokes the delay once.
\<close>

theorem fetch_all_sleeps:
  "(failure (fetch_all r efetch limit delay) = None \<longrightarrow>
      sleeps (events (fetch_all r efetch limit delay)) =
        replicate (length (batch_calls (events (fetch_all r efetch limit delay)))) delay)
   \<and> (failure (fetch_all r efetch limit delay) = None \<longrightarrow>
        batch_calls (events (fetch_all r efetch limit delay)) \<noteq> [] \<longrightarrow>
        last (events (fetch_all r efetch limit delay)) = Sleep delay)
   \<and> (failure (fetch_all r efetch limit delay) \<noteq> None \<longrightarrow>
        sleeps (events (fetch_all r efetch limit delay)) =
          replicate (length (batch_calls (events (fetch_all r efetch limit delay))) - 1) delay)
   \<and> (count r = 1200 \<and> limit = Some 300 \<and> failure (fetch_all r efetch limit delay) = None \<longrightarrow>
        batch_calls (events (fetch_all r efetch limit delay)) = [(0, 300)]
        \<and> sleeps (events (fetch_all r efetch limit delay)) = [delay])"
proof -
  let ?n = "effective_count limit (count r)"
  let ?run = "fetch_loop r efetch delay ?n 0"
  note sl = fetch_loop_sleeps [of r efetch delay ?n 0]
  have c1: "sleeps (events ?run) = replicate (length (batch_calls (events ?run))) delay"
    if "failure ?run = None"
    using sl that by simp
  have c2: "last (events ?run) = Sleep delay"
    if "failure ?run = None" "batch_calls (events ?run) \<noteq> []"
  proof -
    have "windows 0 ?n \<noteq> []" using that fetch_loop_windows [of r efetch delay ?n 0] by simp
    then have "0 < ?n" by (simp add: windows_Nil_iff)
    then show ?thesis using that(1) by (rule fetch_loop_last [rotated])
  qed
  have c3: "sleeps (events ?run) = replicate (length (batch_calls (events ?run)) - 1) delay"
    if "failure ?run \<noteq> None"
    using sl that by simp
  have c4: "batch_calls (events ?run) = [(0, 300)] \<and> sleeps (events ?run) = [delay]"
    if "count r = 1200 \<and> limit = Some 300 \<and> failure ?run = None"
  proof -
    have n: "?n = 300" using that by (simp add: effective_count_def)
    have ok: "failure ?run = None" using that by blast
    have "batch_calls (events ?run) = windows 0 ?n" using ok by (rule fetch_loop_windows)
    then have "batch_calls (events ?run) = [(0, 300)]" by (simp only: n windows_300)
    then show ?thesis using c1 [OF ok] by simp
  qed
  show ?thesis unfolding fetch_all_loop using c1 c2 c3 c4 by blast
qed

theorem fetch_all_sleeps_witness:
  "failure (fetch_all session_1200 well_behaved (Some 300) (34 / 100)) = None
   \<and> count session_1200 = 1200
   \<and> batch_calls (events (fetch_all session_1200 well_behaved (Some 300) (34 / 100))) = [(0, 300)]
   \<and> sleeps (events (fetch_all session_1200 well_behaved (Some 300) (34 / 100))) = [34 / 100]
   \<and> last (events (fetch_all session_1200 well_behaved (Some 300) (34 / 100))) = Sleep (34 / 100)"
  using fetch_all_sleeps [of session_1200 well_behaved "Some 300" "34 / 100"]
  by (simp add: run_1200_300 count_session_1200)

theorem fetch_all_delay_counterexample:
  "length (batch_calls (events (fetch_all session_1200 well_behaved (Some 300) (34 / 100)))) = 1
   \<and> length (sleeps (events (fetch_all session_1200 well_behaved (Some 300) (34 / 100))))
        \<noteq> length (batch_calls (events (fetch_all session_1200 well_behaved (Some 300) (34 / 100)))) - 1
   \<and> events (fetch_all session_1200 well_behaved (Some 300) (34 / 100))
        = [BatchCall 0 300, Efetch 0 300 ''MCID_1'' ''1'', Sleep (34 / 100)]"
  by (simp add: run_1200_300)

section \<open>Batch windows\<close>

text \<open>
  C3. In every run of \<^verbatim>\<open>fetch_all\<close>, the first batch window starts at offset 0, every
  next window starts at the previous start plus the previous size, and every size lies
  between 1 and 500: the windows are contiguous and do not overlap.
\<close>

theorem fetch_all_contiguous:
  "(batch_calls (events (fetch_all r efetch limit delay)) \<noteq> [] \<longrightarrow>
      fst (batch_calls (events (fetch_all r efetch limit delay)) ! 0) = 0)
   \<and> (\<forall>i. Suc i < length (batch_calls (events (fetch_all r efetch limit delay))) \<longrightarrow>
         fst (batch_calls (events (fetch_all r efetch limit delay)) ! Suc i) =
           fst (batch_calls (events (fetch_all r efetch limit delay)) ! i)
           + snd (batch_calls (events (fetch_all r efetch limit delay)) ! i))
   \<and> (\<forall>(s, n) \<in> set (batch_calls (events (fetch_all r efetch limit delay))). 1 \<le> n \<and> n \<le> 500)"
  unfolding fetch_all_loop
  by (rule contiguous_from_nth) (rule fetch_loop_contiguous)

theorem fetch_all_contiguous_witness:
  "batch_calls (events (fetch_all session_1200 well_behaved None (34 / 100)))
     = [(0, 500), (500, 500), (1000, 200)]
   \<and> fst (batch_calls (events (fetch_all session_1200 well_behaved None (34 / 100))) ! 0) = 0
   \<and> fst (batch_calls (events (fetch_all session_1200 well_behaved None (34 / 100))) ! 1) = 0 + 500
   \<and> fst (batch_calls (events (fetch_all session_1200 well_behaved None (34 / 100))) ! 2) = 500 + 500"
  using fetch_all_contiguous [of session_1200 well_behaved None "34 / 100"]
  by (simp add: run_1200_None)

section \<open>Fetching before searching\<close>

text \<open>
  C4. On a retriever whose session token or query key is absent, \<^verbatim>\<open>_fetch_batch\<close> fails
  with the exception of line 43, \<^verbatim>\<open>RuntimeError("error")\<close> (the specification's
  \<open>NotInitializedError\<close>), yields no record and issues no remote call.
\<close>

theorem fetch_batch_guard:
  "webenv r = None \<or> query_key r = None \<Longrightarrow>
     fetch_batch r efetch start size_b = ([], [], Some (RuntimeError ''error''))
     \<and> remote_calls (events (fetch_batch r efetch start size_b)) = []
     \<and> yielded (fetch_batch r efetch start size_b) = []
     \<and> failure (fetch_batch r efetch start size_b) = Some (RuntimeError ''error'')"
  by (cases "webenv r"; cases "query_key r") (simp_all add: fetch_batch_def)

theorem fetch_batch_guard_witness:
  "(webenv (init ''a@b.c'' ''key'') = None \<or> query_key (init ''a@b.c'' ''key'') = None)
   \<and> fetch_batch (init ''a@b.c'' ''key'') well_behaved 0 500 = ([], [], Some (RuntimeError ''error''))"
  using fetch_batch_guard [of "init ''a@b.c'' ''key''" well_behaved 0 500]
  by (simp add: init_def)

section \<open>Failures of search\<close>

text \<open>
  C5. When the remote search call raises, \<^verbatim>\<open>search\<close> fails with that exception, and when
  the response lacks the count, the session token or the query key, it fails with the
  \<^verbatim>\<open>KeyError\<close> of the missing key (either is the specification's \<open>SessionError\<close>; the code
  wraps neither). A well-formed response with a zero count is no failure: \<^verbatim>\<open>search\<close>
  stores the session and returns 0.
\<close>

theorem search_failure:
  "(esearch (search_query taxid min_len max_len) = Inl e \<longrightarrow>
      search r esearch to_int taxid min_len max_len = (r, Inl e))
   \<and> (esearch (search_query taxid min_len max_len) = Inr res
        \<and> (res ''Count'' = None \<or> res ''WebEnv'' = None \<or> res ''QueryKey'' = None) \<longrightarrow>
        (\<exists>key. snd (search r esearch to_int taxid min_len max_len) = Inl (KeyError key)
           \<and> res key = None))
   \<and> (esearch (search_query taxid min_len max_len) = Inr res
        \<and> res ''WebEnv'' = Some w \<and> res ''QueryKey'' = Some k \<and> res ''Count'' = Some c
        \<and> to_int c = Some 0 \<longrightarrow>
        search r esearch to_int taxid min_len max_len =
          (r\<lparr>webenv := Some w, query_key := Some k, count := 0\<rparr>, Inr 0))"
proof -
  have c1: "search r esearch to_int taxid min_len max_len = (r, Inl e)"
    if "esearch (search_query taxid min_len max_len) = Inl e"
    using that by (simp add: search_def)
  have c2: "\<exists>key. snd (search r esearch to_int taxid min_len max_len) = Inl (KeyError key)
           \<and> res key = None"
    if "esearch (search_query taxid min_len max_len) = Inr res"
      and "res ''Count'' = None \<or> res ''WebEnv'' = None \<or> res ''QueryKey'' = None"
  proof (cases "res ''WebEnv''")
    case None
    then show ?thesis using that(1) by (auto simp: search_def)
  next
    case w: (Some w)
    show ?thesis
    proof (cases "res ''QueryKey''")
      case None
      then show ?thesis using that(1) w by (auto simp: search_def)
    next
      case k: (Some k)
      then have "res ''Count'' = None" using that(2) w by simp
      then show ?thesis using that(1) w k by (auto simp: search_def)
    qed
  qed
  have c3: "search r esearch to_int taxid min_len max_len =
          (r\<lparr>webenv := Some w, query_key := Some k, count := 0\<rparr>, Inr 0)"
    if "esearch (search_query taxid min_len max_len) = Inr res
        \<and> res ''WebEnv'' = Some w \<and> res ''QueryKey'' = Some k \<and> res ''Count'' = Some c
        \<and> to_int c = Some 0"
    using that by (simp add: search_def)
  show ?thesis using c1 c2 c3 by blast
qed

theorem search_failure_witness:
  "search (init ''a@b.c'' ''key'') esearch_down sample_int ''9606'' None None
     = (init ''a@b.c'' ''key'', Inl (EntrezError ''HTTP Error 502: Bad Gateway''))
   \<and> snd (search (init ''a@b.c'' ''key'') esearch_no_count sample_int ''9606'' None None)
       = Inl (KeyError ''Count'')
   \<and> search (init ''a@b.c'' ''key'') (esearch_count ''0'') sample_int ''9606'' None None
       = (\<lparr>webenv = Some ''MCID_1'', query_key = Some ''1'', count = 0\<rparr>, Inr 0)"
proof -
  let ?r = "init ''a@b.c'' ''key''"
  have down: "esearch_down (search_query ''9606'' None None)
      = Inl (EntrezError ''HTTP Error 502: Bad Gateway'')"
    by (simp add: esearch_down_def)
  have a: "search ?r esearch_down sample_int ''9606'' None None
      = (?r, Inl (EntrezError ''HTTP Error 502: Bad Gateway''))"
    using search_failure [of esearch_down "''9606''" None None
        "EntrezError ''HTTP Error 502: Bad Gateway''" ?r sample_int] down
    by blast
  have b: "snd (search ?r esearch_no_count sample_int ''9606'' None None)
      = Inl (KeyError ''Count'')"
    by (simp add: search_def esearch_no_count_def)
  have zero: "esearch_count ''0'' (search_query ''9606'' None None)
        = Inr [''WebEnv'' \<mapsto> ''MCID_1'', ''QueryKey'' \<mapsto> ''1'', ''Count'' \<mapsto> ''0'']"
    by (simp add: esearch_count_def)
  have c: "search ?r (esearch_count ''0'') sample_int ''9606'' None None
      = (?r\<lparr>webenv := Some ''MCID_1'', query_key := Some ''1'', count := 0\<rparr>, Inr 0)"
    using search_failure [of "esearch_count ''0''" "''9606''" None None _ ?r sample_int
        "[''WebEnv'' \<mapsto> ''MCID_1'', ''QueryKey'' \<mapsto> ''1'', ''Count'' \<mapsto> ''0'']"
        "''MCID_1''" "''1''" "''0''"] zero
    by (simp add: sample_int_def)
  show ?thesis using a b c by (simp add: init_def)
qed

section \<open>The query string\<close>

text \<open>
  C7. The query that \<^verbatim>\<open>search\<close> builds is \<^verbatim>\<open>txid<ID>[Organism]\<close>. With both bounds absent
  nothing is appended. With exactly one bound absent the clause \<^verbatim>\<open> AND <min>:<max>[SLEN]\<close>
  is appended with 1 for an absent lower bound and 1000000000 for an absent upper bound.
  With both present the bounds are used as given, an inverted pair included.
\<close>

theorem search_query_clause:
  "search_query taxid None None = ''txid'' @ taxid @ ''[Organism]''
   \<and> search_query taxid (Some lo) None
       = ''txid'' @ taxid @ ''[Organism] AND '' @ str_int lo @ '':1000000000[SLEN]''
   \<and> search_query taxid None (Some hi)
       = ''txid'' @ taxid @ ''[Organism] AND 1:'' @ str_int hi @ ''[SLEN]''
   \<and> search_query taxid (Some lo) (Some hi)
       = ''txid'' @ taxid @ ''[Organism] AND '' @ str_int lo @ '':'' @ str_int hi @ ''[SLEN]''"
  by (simp add: search_query_def str_int_1 str_int_max)

theorem search_query_clause_witness:
  "search_query ''9606'' None None = ''txid9606[Organism]''
   \<and> search_query ''9606'' (Some 500) None = ''txid9606[Organism] AND 500:1000000000[SLEN]''
   \<and> search_query ''9606'' None (Some 100) = ''txid9606[Organism] AND 1:100[SLEN]''
   \<and> search_query ''9606'' (Some 500) (Some 100) = ''txid9606[Organism] AND 500:100[SLEN]''"
  using search_query_clause [of "''9606''" 500 100]
  by (simp add: str_int_def str_nat.simps)

section \<open>Use before search\<close>

text \<open>
  C6. On a freshly constructed retriever (stored count 0, no session) \<^verbatim>\<open>fetch_all\<close> with
  any limit, present or absent, yields the empty sequence and raises nothing: the loop
  body is never entered, so no batch call is made and the guard of \<^verbatim>\<open>_fetch_batch\<close> is
  never reached.
\<close>

theorem fetch_all_fresh_empty:
  "fetch_all (init email api_key) efetch limit delay = ([], [], None)"
  by (cases limit) (simp_all add: fetch_all_def init_def fetch_loop.simps)

section \<open>The order of the plot\<close>

text \<open>
  C8. The order that \<^verbatim>\<open>plot_lengths\<close> derives is non-increasing in sequence length over
  the whole output, and the sort is stable: the records of any one length appear in it in
  their original relative order. The output holds the same records as the input.
\<close>

theorem plot_lengths_order:
  "sorted_wrt (\<lambda>a b. b \<le> a) (snd (plot_lengths records))
   \<and> snd (plot_lengths records) = map (\<lambda>r. length (seq r)) (sorted_recs records)
   \<and> fst (plot_lengths records) = map id_acc (sorted_recs records)
   \<and> (\<forall>n. filter (\<lambda>r. length (seq r) = n) (sorted_recs records)
             = filter (\<lambda>r. length (seq r) = n) records)
   \<and> length (sorted_recs records) = length records
   \<and> set (sorted_recs records) = set records"
proof -
  have "length (sorted_recs records) = length records" "set (sorted_recs records) = set records"
    by (simp_all add: sorted_recs_def sorted_py_def)
  then show ?thesis
    using sorted_recs_desc [of records] sorted_recs_stable [of _ records]
    by (simp add: plot_lengths_def)
qed

theorem plot_lengths_order_witness:
  "plot_lengths sample_records = ([''B2'', ''A1'', ''C3''], [3, 2, 2])
   \<and> sorted_wrt (\<lambda>a b. b \<le> a) (snd (plot_lengths sample_records))
   \<and> filter (\<lambda>r. length (seq r) = 2) (sorted_recs sample_records)
       = filter (\<lambda>r. length (seq r) = 2) sample_records"
proof -
  have a: "plot_lengths sample_records = ([''B2'', ''A1'', ''C3''], [3, 2, 2])"
    by (simp add: plot_lengths_def sorted_recs_sample)
  from plot_lengths_order [of sample_records]
  have s: "sorted_wrt (\<lambda>a b. b \<le> a) (snd (plot_lengths sample_records))"
    and f: "filter (\<lambda>r. length (seq r) = 2) (sorted_recs sample_records)
              = filter (\<lambda>r. length (seq r) = 2) sample_records"
    by blast+
  show ?thesis using a s f by blast
qed

section \<open>The rows of the report\<close>

text \<open>
  C9. For \<open>n\<close> records \<^verbatim>\<open>write_csv\<close> writes exactly \<open>n + 1\<close> rows: the header
  \<^verbatim>\<open>Accession, Length, Description\<close>, then one row per record with its accession, its
  sequence length and its description, in the order of the input, nothing sorted, moved
  or dropped.
\<close>

theorem write_csv_rows:
  "write_csv records =
     [''Accession'', ''Length'', ''Description'']
       # map (\<lambda>r. [id_acc r, str_nat (length (seq r)), description r]) records
   \<and> length (write_csv records) = length records + 1"
  by (simp add: write_csv_def foldl_writerow) (simp add: writerow_def)

theorem write_csv_rows_witness:
  "write_csv sample_records =
     [[''Accession'', ''Length'', ''Description''],
      [''A1'', ''2'', ''first''], [''B2'', ''3'', ''second''], [''C3'', ''2'', ''third'']]
   \<and> length (write_csv sample_records) = length sample_records + 1"
  using write_csv_rows [of sample_records]
  by (simp add: sample_records_def str_nat_digit)

section \<open>How the program ends\<close>




end
